theory Spec2Isabelle
  imports Complex_Main
begin

section \<open>The in-memory store (backend/config/database.js)\<close>

text \<open>
  \<^verbatim>\<open>InMemoryDatabase\<close> keeps three JavaScript \<^verbatim>\<open>Map\<close>s keyed by a numeric id and a
  counter per table. A \<^verbatim>\<open>Map\<close> iterates in insertion order, and
  \<^verbatim>\<open>findUrlByShortCode\<close> depends on that order, so a table is an association list
  in insertion order. Timestamps are milliseconds since the epoch. Every operation of
  the store is declared \<^verbatim>\<open>async\<close> but awaits nothing: it runs to completion, so it is a
  function from the store before to a result and the store after.

  Two records of the source both have fields \<^verbatim>\<open>id\<close> and \<^verbatim>\<open>createdAt\<close>; they are
  \<open>link_id\<close>, \<open>createdAt\<close> for a link and \<open>click_id\<close>, \<open>click_createdAt\<close> for a click.
  The user table is not modelled: no operation below reads it.
\<close>

text \<open>A JavaScript \<^verbatim>\<open>Date\<close>: a time value, or the invalid date (whose time is NaN).\<close>

datatype js_date = Date int | InvalidDate

record url =
  link_id :: nat
  original_url :: string
  short_url :: string
  user_id :: "nat option"
  title :: "string option"
  description :: "string option"
  is_active :: bool
  expires_at :: "js_date option"
  click_count :: nat
  createdAt :: int
  updatedAt :: int

record click =
  click_id :: nat
  url_id :: nat
  ip_address :: "string option"
  user_agent :: "string option"
  referer :: "string option"
  country :: "string option"
  city :: "string option"
  browser :: "string option"
  os :: "string option"
  device_type :: "string option"
  click_createdAt :: int

text \<open>The argument objects of \<^verbatim>\<open>createUrl\<close> and \<^verbatim>\<open>createClick\<close>; an absent
  property (\<^verbatim>\<open>undefined\<close>) or \<^verbatim>\<open>null\<close> is \<open>None\<close>.\<close>

record urlData =
  d_original_url :: string
  d_short_url :: string
  d_user_id :: "nat option"
  d_title :: "string option"
  d_description :: "string option"
  d_is_active :: "bool option"
  d_expires_at :: "js_date option"

record clickData =
  c_url_id :: nat
  c_ip_address :: "string option"
  c_user_agent :: "string option"
  c_referer :: "string option"
  c_country :: "string option"
  c_city :: "string option"
  c_browser :: "string option"
  c_os :: "string option"
  c_device_type :: "string option"

record database =
  urls :: "(nat \<times> url) list"
  clicks :: "(nat \<times> click) list"
  counters_urls :: nat
  counters_clicks :: nat

definition new_database :: database where
  "new_database = \<lparr>urls = [], clicks = [], counters_urls = 1, counters_clicks = 1\<rparr>"

subsection \<open>JavaScript \<^verbatim>\<open>Map\<close> operations\<close>

fun map_set :: "nat \<Rightarrow> 'v \<Rightarrow> (nat \<times> 'v) list \<Rightarrow> (nat \<times> 'v) list" where
  "map_set k v [] = [(k, v)]"
| "map_set k v ((k', v') # m) =
     (if k' = k then (k, v) # m else (k', v') # map_set k v m)"

definition map_get :: "nat \<Rightarrow> (nat \<times> 'v) list \<Rightarrow> 'v option" where
  "map_get k m = map_of m k"

definition map_values :: "(nat \<times> 'v) list \<Rightarrow> 'v list" where
  "map_values m = map snd m"

text \<open>\<^verbatim>\<open>Map.prototype.delete\<close> returns whether the key was present.\<close>

definition map_delete :: "nat \<Rightarrow> (nat \<times> 'v) list \<Rightarrow> bool \<times> (nat \<times> 'v) list" where
  "map_delete k m = (k \<in> fst ` set m, filter (\<lambda>kv. fst kv \<noteq> k) m)"

subsection \<open>JavaScript \<^verbatim>\<open>x || null\<close>\<close>

definition or_null_str :: "string option \<Rightarrow> string option" where
  "or_null_str x = (case x of None \<Rightarrow> None | Some s \<Rightarrow> if s = [] then None else Some s)"

definition or_null_num :: "nat option \<Rightarrow> nat option" where
  "or_null_num x = (case x of None \<Rightarrow> None | Some n \<Rightarrow> if n = 0 then None else Some n)"

subsection \<open>URL operations\<close>

text \<open>
  \<^verbatim>\<open>createUrl\<close> takes the next id from the counter, builds the record and stores it
  under that id. The source has no other statement: it reads no stored record and
  has no \<^verbatim>\<open>throw\<close>, so the model has no error branch.
\<close>

definition createUrl :: "urlData \<Rightarrow> int \<Rightarrow> database \<Rightarrow> url \<times> database" where
  "createUrl d now db =
     (let i = counters_urls db;
          u = \<lparr>link_id = i,
               original_url = d_original_url d,
               short_url = d_short_url d,
               user_id = or_null_num (d_user_id d),
               title = or_null_str (d_title d),
               description = or_null_str (d_description d),
               is_active = (d_is_active d \<noteq> Some False),
               expires_at = d_expires_at d,
               click_count = 0,
               createdAt = now,
               updatedAt = now\<rparr>
      in (u, db\<lparr>counters_urls := i + 1, urls := map_set i u (urls db)\<rparr>))"

definition findUrlByShortCode :: "string \<Rightarrow> database \<Rightarrow> url option" where
  "findUrlByShortCode shortCode db =
     find (\<lambda>u. short_url u = shortCode) (map_values (urls db))"

definition findUrlById :: "nat \<Rightarrow> database \<Rightarrow> url option" where
  "findUrlById i db = map_get i (urls db)"

definition deleteUrl :: "nat \<Rightarrow> database \<Rightarrow> bool \<times> database" where
  "deleteUrl i db =
     (let (found, m) = map_delete i (urls db) in (found, db\<lparr>urls := m\<rparr>))"

subsection \<open>Click operations\<close>

text \<open>
  \<^verbatim>\<open>createClick\<close> stores the click and then adds one to \<^verbatim>\<open>click_count\<close> of the link
  stored under \<^verbatim>\<open>clickData.url_id\<close>, when there is one.
\<close>

definition createClick :: "clickData \<Rightarrow> int \<Rightarrow> database \<Rightarrow> click \<times> database" where
  "createClick c now db =
     (let i = counters_clicks db;
          k = \<lparr>click_id = i,
               url_id = c_url_id c,
               ip_address = c_ip_address c,
               user_agent = c_user_agent c,
               referer = c_referer c,
               country = c_country c,
               city = c_city c,
               browser = c_browser c,
               os = c_os c,
               device_type = c_device_type c,
               click_createdAt = now\<rparr>;
          db1 = db\<lparr>counters_clicks := i + 1, clicks := map_set i k (clicks db)\<rparr>
      in case map_get (c_url_id c) (urls db1) of
           None \<Rightarrow> (k, db1)
         | Some u \<Rightarrow>
             (k, db1\<lparr>urls := map_set (c_url_id c)
                                (u\<lparr>click_count := click_count u + 1\<rparr>) (urls db1)\<rparr>))"

definition findClicksByUrlId :: "nat \<Rightarrow> database \<Rightarrow> click list" where
  "findClicksByUrlId i db = filter (\<lambda>k. url_id k = i) (map_values (clicks db))"

section \<open>The model adapters (backend/models/index.js)\<close>

text \<open>
  The routes and the service reach the store through the adapters \<^verbatim>\<open>Url\<close> and
  \<^verbatim>\<open>Click\<close>. \<^verbatim>\<open>Url.create\<close> is \<^verbatim>\<open>createUrl\<close>; \<^verbatim>\<open>Url.findOne\<close> with a
  \<^verbatim>\<open>short_url\<close> condition is \<^verbatim>\<open>findUrlByShortCode\<close>; \<^verbatim>\<open>Url.destroy\<close> with an id is
  \<^verbatim>\<open>deleteUrl\<close>; \<^verbatim>\<open>Click.create\<close> is \<^verbatim>\<open>createClick\<close>.
\<close>

definition Url_create :: "urlData \<Rightarrow> int \<Rightarrow> database \<Rightarrow> url \<times> database" where
  "Url_create = createUrl"

definition Url_findOne_short_url :: "string \<Rightarrow> database \<Rightarrow> url option" where
  "Url_findOne_short_url shortCode db =
     (if shortCode \<noteq> [] then findUrlByShortCode shortCode db else None)"

definition Url_destroy :: "nat \<Rightarrow> database \<Rightarrow> bool \<times> database" where
  "Url_destroy i db = (if i \<noteq> 0 then deleteUrl i db else (False, db))"

section \<open>The URL service (services/urlService.js)\<close>

subsection \<open>Strings\<close>

text \<open>
  Strings are lists of 8-bit characters. \<^verbatim>\<open>charAt\<close> returns the empty string when the
  index is out of range; \<^verbatim>\<open>toLowerCase\<close> is modelled on the ASCII letters.
\<close>

definition lowercase_letters :: string where
  "lowercase_letters = ''abcdefghijklmnopqrstuvwxyz''"

definition uppercase_letters :: string where
  "uppercase_letters = ''ABCDEFGHIJKLMNOPQRSTUVWXYZ''"

definition digits :: string where
  "digits = ''0123456789''"

definition charAt :: "string \<Rightarrow> int \<Rightarrow> string" where
  "charAt s i = (if 0 \<le> i \<and> nat i < length s then [s ! nat i] else [])"

definition lower_char :: "char \<Rightarrow> char" where
  "lower_char c =
     (if c \<in> set uppercase_letters then char_of (of_char c + (32::nat)) else c)"

definition toLowerCase :: "string \<Rightarrow> string" where
  "toLowerCase s = map lower_char s"

definition is_alnum :: "char \<Rightarrow> bool" where
  "is_alnum c = (c \<in> set (lowercase_letters @ uppercase_letters @ digits))"

subsection \<open>The sources of randomness and time\<close>

text \<open>
  The generators read the clock, \<^verbatim>\<open>Math.random\<close>, the \<^verbatim>\<open>uuid\<close> package and an MD5
  digest. They are parameters of the model, indexed by the number of the generator
  call within one request (and, for \<^verbatim>\<open>Math.random\<close>, by the number of the draw
  within that call):
  \<^item> \<open>md5_base64 e n s\<close> is the base64 MD5 digest computed at call \<open>n\<close> from the
    original URL \<open>s\<close>, the timestamp and the random salt;
  \<^item> \<open>uuidv4 e n\<close> is the UUID drawn at call \<open>n\<close>;
  \<^item> \<open>date_now e n\<close> is \<^verbatim>\<open>Date.now()\<close> at call \<open>n\<close>;
  \<^item> \<open>math_random e n j\<close> is the \<open>j\<close>-th value of \<^verbatim>\<open>Math.random()\<close> in call \<open>n\<close>,
    a number in the interval from 0 (included) to 1 (excluded).
\<close>

record env =
  md5_base64 :: "nat \<Rightarrow> string \<Rightarrow> string"
  uuidv4 :: "nat \<Rightarrow> string"
  date_now :: "nat \<Rightarrow> int"
  math_random :: "nat \<Rightarrow> nat \<Rightarrow> real"

definition unit_interval :: "real \<Rightarrow> bool" where
  "unit_interval r = (0 \<le> r \<and> r < 1)"

text \<open>
  \<^verbatim>\<open>Math.floor(Math.random() * n)\<close>, with the product taken in the reals. (For the
  alphabet sizes that occur, at most 62, the rounded product of a number below 1 and
  \<open>n\<close> stays below \<open>n\<close> as well.)
\<close>

definition random_index :: "real \<Rightarrow> nat \<Rightarrow> int" where
  "random_index r n = \<lfloor>r * real n\<rfloor>"

subsection \<open>The three generators\<close>

definition generateHashCode :: "env \<Rightarrow> nat \<Rightarrow> string \<Rightarrow> string" where
  "generateHashCode e n originalUrl = take 6 (filter is_alnum (md5_base64 e n originalUrl))"

definition generateUuidCode :: "env \<Rightarrow> nat \<Rightarrow> string" where
  "generateUuidCode e n = take 8 (filter (\<lambda>c. c \<noteq> CHR ''-'') (uuidv4 e n))"

text \<open>JavaScript's \<^verbatim>\<open>%\<close> truncates towards zero.\<close>

definition js_rem :: "int \<Rightarrow> int \<Rightarrow> int" where
  "js_rem a b = (if 0 \<le> a then a mod b else - ((- a) mod b))"

fun generateCustomCode_loop :: "string \<Rightarrow> int \<Rightarrow> (nat \<Rightarrow> real) \<Rightarrow> nat \<Rightarrow> nat \<Rightarrow> string" where
  "generateCustomCode_loop chars base rnd i 0 = []"
| "generateCustomCode_loop chars base rnd i (Suc k) =
     charAt chars (js_rem (base + random_index (rnd i) (length chars)) (int (length chars)))
       @ generateCustomCode_loop chars base rnd (Suc i) k"

definition generateCustomCode :: "env \<Rightarrow> nat \<Rightarrow> string" where
  "generateCustomCode e n =
     (let chars = lowercase_letters @ uppercase_letters @ digits;
          base = js_rem (date_now e n) 1000000
      in generateCustomCode_loop chars base (math_random e n) 0 7)"

subsection \<open>generateShortCode\<close>

datatype js_error = Error string | TypeError string

definition maxAttempts :: nat where
  "maxAttempts = 10"

text \<open>The \<^verbatim>\<open>Error\<close> thrown after the loop.\<close>

definition exhausted_error :: js_error where
  "exhausted_error = Error ''Unable to generate unique short code after maximum attempts''"

text \<open>The \<^verbatim>\<open>switch\<close> on \<^verbatim>\<open>algorithm.toLowerCase()\<close>: the candidate of attempt \<open>n\<close>.\<close>

definition generate_candidate :: "env \<Rightarrow> string \<Rightarrow> string \<Rightarrow> nat \<Rightarrow> string" where
  "generate_candidate e algorithm originalUrl n =
     (let a = toLowerCase algorithm
      in if a = ''hash'' then generateHashCode e n originalUrl
         else if a = ''uuid'' then generateUuidCode e n
         else if a = ''custom'' then generateCustomCode e n
         else generateHashCode e n originalUrl)"

text \<open>
  The \<^verbatim>\<open>while (attempts < maxAttempts)\<close> loop. Each iteration calls one generator once
  and \<^verbatim>\<open>Url.findOne\<close> once. Beside the outcome (the code returned, or the \<^verbatim>\<open>Error\<close>
  thrown after the loop) the model returns the codes that were looked up, in order:
  the source keeps no such list, it is there to count the lookups. The model runs one
  request alone, so the store is the same at every lookup of the loop.
\<close>

function generateShortCode_loop ::
  "env \<Rightarrow> string \<Rightarrow> string \<Rightarrow> database \<Rightarrow> nat \<Rightarrow> string list \<Rightarrow> (js_error + string) \<times> string list" where
  "generateShortCode_loop e algorithm originalUrl db attempts looked =
     (if attempts < maxAttempts then
        (let shortCode = generate_candidate e algorithm originalUrl attempts
         in case Url_findOne_short_url shortCode db of
              None \<Rightarrow> (Inr shortCode, looked @ [shortCode])
            | Some existingUrl \<Rightarrow>
                generateShortCode_loop e algorithm originalUrl db (attempts + 1)
                  (looked @ [shortCode]))
      else (Inl exhausted_error, looked))"
  by pat_completeness auto
termination
  by (relation "measure (\<lambda>(e, algorithm, originalUrl, db, attempts, looked). maxAttempts - attempts)") auto

declare generateShortCode_loop.simps [simp del]

definition generateShortCode ::
  "env \<Rightarrow> string \<Rightarrow> string \<Rightarrow> database \<Rightarrow> (js_error + string) \<times> string list" where
  "generateShortCode e algorithm originalUrl db =
     generateShortCode_loop e algorithm originalUrl db 0 []"

subsection \<open>isExpired\<close>

text \<open>
  A \<^verbatim>\<open>Date\<close> object is truthy, so \<^verbatim>\<open>!urlRecord.expires_at\<close> holds only for \<^verbatim>\<open>null\<close>.
  A comparison with the invalid date is false. \<open>now\<close> is the value of \<^verbatim>\<open>new Date()\<close>.
\<close>

definition isExpired :: "url \<Rightarrow> int \<Rightarrow> bool" where
  "isExpired urlRecord now =
     (case expires_at urlRecord of
        None \<Rightarrow> False
      | Some InvalidDate \<Rightarrow> False
      | Some (Date t) \<Rightarrow> now > t)"

subsection \<open>customAlgorithm\<close>

text \<open>
  The options object: an absent property is \<open>None\<close> and takes the default of the
  destructuring pattern. \<open>other_keys\<close> are the names of properties the function does not
  read; they count for \<^verbatim>\<open>Object.keys\<close>. Values are of the documented types: an integer
  \<^verbatim>\<open>length\<close> and boolean flags.
\<close>

record custom_options =
  opt_length :: "int option"
  includeNumbers :: "bool option"
  includeUppercase :: "bool option"
  includeLowercase :: "bool option"
  excludeSimilar :: "bool option"
  other_keys :: "string list"

definition no_options :: custom_options where
  "no_options = \<lparr>opt_length = None, includeNumbers = None, includeUppercase = None,
     includeLowercase = None, excludeSimilar = None, other_keys = []\<rparr>"

definition default_to :: "'a \<Rightarrow> 'a option \<Rightarrow> 'a" where
  "default_to d x = (case x of None \<Rightarrow> d | Some v \<Rightarrow> v)"

definition similar_chars :: string where
  "similar_chars = ''0oO1lI''"

text \<open>The alphabet \<^verbatim>\<open>chars\<close> built from the flags.\<close>

definition custom_chars :: "custom_options \<Rightarrow> string" where
  "custom_chars options =
     (let chars = (if default_to True (includeLowercase options) then lowercase_letters else [])
                @ (if default_to True (includeUppercase options) then uppercase_letters else [])
                @ (if default_to True (includeNumbers options) then digits else [])
      in if default_to True (excludeSimilar options)
         then filter (\<lambda>c. c \<notin> set similar_chars) chars
         else chars)"

text \<open>\<^verbatim>\<open>for (let i = 0; i < length; i++) result += chars.charAt(...)\<close>.\<close>

function customAlgorithm_loop :: "(nat \<Rightarrow> real) \<Rightarrow> string \<Rightarrow> int \<Rightarrow> nat \<Rightarrow> string \<Rightarrow> string" where
  "customAlgorithm_loop rnd chars len i result =
     (if int i < len
      then customAlgorithm_loop rnd chars len (i + 1)
             (result @ charAt chars (random_index (rnd i) (length chars)))
      else result)"
  by pat_completeness auto
termination
  by (relation "measure (\<lambda>(rnd, chars, len, i, result). nat (len - int i))") auto

declare customAlgorithm_loop.simps [simp del]

definition customAlgorithm :: "(nat \<Rightarrow> real) \<Rightarrow> custom_options \<Rightarrow> string" where
  "customAlgorithm rnd options =
     customAlgorithm_loop rnd (custom_chars options) (default_to 7 (opt_length options)) 0 []"

section \<open>The request middleware (middleware/security.js)\<close>

text \<open>
  What a handler reads of a request: the route parameter, four headers and the socket's
  remote address. A response is a JSON body with a status, an \<^verbatim>\<open>error\<close> and a
  \<^verbatim>\<open>message\<close>, or a redirect. The console is a list of entries, oldest first.
\<close>

record request =
  param_shortCode :: string
  header_user_agent :: "string option"
  header_referer :: "string option"
  header_referrer :: "string option"
  header_x_forwarded_for :: "string option"
  header_x_real_ip :: "string option"
  remoteAddress :: "string option"

datatype response = Json nat string string | Redirect nat string

datatype log_entry = Warn string | LogError string

fun status_of :: "response \<Rightarrow> nat" where
  "status_of (Json st err msg) = st"
| "status_of (Redirect st target) = st"

subsection \<open>extractClientIp\<close>

definition is_space :: "char \<Rightarrow> bool" where
  "is_space c = (of_char c \<in> set [9, 10, 11, 12, 13, 32, 160 :: nat])"

definition trim :: "string \<Rightarrow> string" where
  "trim s = rev (dropWhile is_space (rev (dropWhile is_space s)))"

definition truthy :: "string option \<Rightarrow> bool" where
  "truthy x = (case x of None \<Rightarrow> False | Some s \<Rightarrow> s \<noteq> [])"

text \<open>The value stored in \<^verbatim>\<open>req.clientIp\<close>; \<open>None\<close> is \<^verbatim>\<open>undefined\<close>.\<close>

definition extractClientIp :: "request \<Rightarrow> string option" where
  "extractClientIp req =
     (case header_x_forwarded_for req of
        Some forwarded \<Rightarrow>
          if forwarded \<noteq> [] then Some (trim (takeWhile (\<lambda>c. c \<noteq> CHR '','') forwarded))
          else if truthy (header_x_real_ip req) then header_x_real_ip req
          else remoteAddress req
      | None \<Rightarrow>
          if truthy (header_x_real_ip req) then header_x_real_ip req
          else remoteAddress req)"

subsection \<open>validateShortCode\<close>

text \<open>\<^verbatim>\<open>/^[a-zA-Z0-9_-]{1,20}$/\<close>\<close>

definition is_code_char :: "char \<Rightarrow> bool" where
  "is_code_char c = (c \<in> set (lowercase_letters @ uppercase_letters @ digits @ ''_-''))"

definition validShortCodeRegex :: "string \<Rightarrow> bool" where
  "validShortCodeRegex s = (1 \<le> length s \<and> length s \<le> 20 \<and> list_all is_code_char s)"

text \<open>The six \<^verbatim>\<open>maliciousPatterns\<close>, each a search anywhere in the string.\<close>

fun path_traversal :: "string \<Rightarrow> bool" where
  "path_traversal (a # b # s) = ((a = CHR ''.'' \<and> b = CHR ''.'') \<or> path_traversal (b # s))"
| "path_traversal s = False"

definition is_hex :: "char \<Rightarrow> bool" where
  "is_hex c = (c \<in> set ''0123456789abcdefABCDEF'')"

fun url_encoding :: "string \<Rightarrow> bool" where
  "url_encoding (a # b # c # s) =
     ((a = CHR ''%'' \<and> is_hex b \<and> is_hex c) \<or> url_encoding (b # c # s))"
| "url_encoding s = False"

definition xss_characters :: "string \<Rightarrow> bool" where
  "xss_characters s =
     list_ex (\<lambda>c. c \<in> set [CHR ''<'', CHR ''>'', CHR 0x27, CHR 0x22, CHR ''&'']) s"

definition null_bytes :: "string \<Rightarrow> bool" where
  "null_bytes s = list_ex (\<lambda>c. c = CHR 0x00) s"

definition backslashes :: "string \<Rightarrow> bool" where
  "backslashes s = list_ex (\<lambda>c. c = CHR 0x5C) s"

definition forward_slashes :: "string \<Rightarrow> bool" where
  "forward_slashes s = list_ex (\<lambda>c. c = CHR ''/'') s"

definition maliciousPatterns :: "(string \<Rightarrow> bool) list" where
  "maliciousPatterns =
     [path_traversal, url_encoding, xss_characters, null_bytes, backslashes, forward_slashes]"

definition show_clientIp :: "string option \<Rightarrow> string" where
  "show_clientIp ip = (case ip of None \<Rightarrow> ''undefined'' | Some s \<Rightarrow> s)"

text \<open>
  The middleware answers (\<open>Some\<close> response) or calls \<^verbatim>\<open>next()\<close> (\<open>None\<close>); the second
  component is what it wrote to the console. The statements follow the source's order:
  the emptiness test, the format test, then the loop over the patterns, the only place
  with a \<^verbatim>\<open>console.warn\<close>.
\<close>

definition validateShortCode :: "string \<Rightarrow> string option \<Rightarrow> response option \<times> log_entry list" where
  "validateShortCode shortCode clientIp =
     (if shortCode = [] then
        (Some (Json 400 ''Invalid URL'' ''Short code is required''), [])
      else if \<not> validShortCodeRegex shortCode then
        (Some (Json 400 ''Invalid URL''
           ''Invalid short code format. Only alphanumeric characters, hyphens, and underscores are allowed.''), [])
      else if list_ex (\<lambda>pattern. pattern shortCode) maliciousPatterns then
        (Some (Json 400 ''Invalid URL'' ''Short code contains invalid characters''),
         [Warn (''Blocked malicious shortCode attempt: '' @ shortCode @ '' from IP: ''
                @ show_clientIp clientIp)])
      else (None, []))"

section \<open>The routes (routes/urls.js, routes/api.js)\<close>

subsection \<open>GET /:shortCode\<close>

fun str_includes :: "string \<Rightarrow> string \<Rightarrow> bool" where
  "str_includes [] sub = (sub = [])"
| "str_includes (c # s) sub = (take (length sub) (c # s) = sub \<or> str_includes s sub)"

definition deviceType_of :: "string \<Rightarrow> string" where
  "deviceType_of userAgent =
     (if str_includes userAgent ''Mobile'' then ''mobile''
      else if str_includes userAgent ''Tablet'' then ''tablet''
      else if str_includes userAgent ''Desktop'' \<or> str_includes userAgent ''Windows''
              \<or> str_includes userAgent ''Mac'' then ''desktop''
      else ''other'')"

text \<open>
  \<^verbatim>\<open>Click.create\<close> as the handler sees it: it returns the click, or throws. In both
  cases it leaves a store behind. The adapter of this repository is \<open>Click_create\<close>,
  which never throws; the handler is stated for any click store, so that a throwing one
  can be put in its place.
\<close>

type_synonym click_store =
  "clickData \<Rightarrow> int \<Rightarrow> database \<Rightarrow> (js_error \<times> database) + (click \<times> database)"

definition Click_create :: click_store where
  "Click_create c now db = Inr (createClick c now db)"

definition click_of_request :: "request \<Rightarrow> url \<Rightarrow> clickData" where
  "click_of_request req u =
     (let userAgent = (case header_user_agent req of None \<Rightarrow> [] | Some ua \<Rightarrow> ua);
          referer = (if truthy (header_referer req) then header_referer req
                     else if truthy (header_referrer req) then header_referrer req
                     else None)
      in \<lparr>c_url_id = link_id u,
          c_ip_address = extractClientIp req,
          c_user_agent = Some userAgent,
          c_referer = referer,
          c_country = None, c_city = None, c_browser = None, c_os = None,
          c_device_type = Some (deviceType_of userAgent)\<rparr>)"

text \<open>
  The handler proper, after the middleware. It looks the code up; answers 404 when
  there is no link, 410 when the link is not active, 410 when it is expired; otherwise it
  records the click inside an inner \<^verbatim>\<open>try\<close> whose \<^verbatim>\<open>catch\<close> only logs, and redirects.
  The result is the response, the store afterwards and the console output. The outer
  \<^verbatim>\<open>catch\<close> (500) is for an exception of the lookup; \<^verbatim>\<open>Url.findOne\<close> throws none.
\<close>

definition redirect_handler ::
  "click_store \<Rightarrow> request \<Rightarrow> int \<Rightarrow> database \<Rightarrow> response \<times> database \<times> log_entry list" where
  "redirect_handler click_create req now db =
     (case Url_findOne_short_url (param_shortCode req) db of
        None \<Rightarrow>
          (Json 404 ''URL not found'' ''The shortened URL you requested does not exist'', db, [])
      | Some u \<Rightarrow>
          if \<not> is_active u then
            (Json 410 ''URL disabled'' ''This shortened URL has been disabled'', db, [])
          else if isExpired u now then
            (Json 410 ''URL expired'' ''This shortened URL has expired'', db, [])
          else
            (case click_create (click_of_request req u) now db of
               Inl (analyticsError, db') \<Rightarrow>
                 (Redirect 301 (original_url u), db', [LogError ''Analytics tracking error:''])
             | Inr (k, db') \<Rightarrow>
                 (Redirect 301 (original_url u), db', [])))"

text \<open>The route: \<^verbatim>\<open>extractClientIp\<close>, \<^verbatim>\<open>validateShortCode\<close>, then the handler.\<close>

definition get_shortCode ::
  "click_store \<Rightarrow> request \<Rightarrow> int \<Rightarrow> database \<Rightarrow> response \<times> database \<times> log_entry list" where
  "get_shortCode click_create req now db =
     (case validateShortCode (param_shortCode req) (extractClientIp req) of
        (Some rejection, warned) \<Rightarrow> (rejection, db, warned)
      | (None, warned) \<Rightarrow>
          (case redirect_handler click_create req now db of
             (res, db', logged) \<Rightarrow> (res, db', warned @ logged)))"

subsection \<open>POST /shorten/bulk: the code of one item\<close>

definition object_keys :: "custom_options \<Rightarrow> nat" where
  "object_keys options =
     (if opt_length options = None then 0 else 1)
     + (if includeNumbers options = None then 0 else 1)
     + (if includeUppercase options = None then 0 else 1)
     + (if includeLowercase options = None then 0 else 1)
     + (if excludeSimilar options = None then 0 else 1)
     + length (other_keys options)"

datatype bulk_code = ShortCode string | GENERATION_FAILED | PROCESSING_ERROR

text \<open>
  The \<^verbatim>\<open>while (attempts < 5)\<close> loop of the branch for \<^verbatim>\<open>custom\<close> with options. The
  first candidate is drawn before the loop and a new one after each failed lookup; the
  \<open>n\<close>-th call of \<^verbatim>\<open>customAlgorithm\<close> draws from \<open>math_random e n\<close>. The loop returns the
  last candidate, \<^verbatim>\<open>attempts\<close> and the codes looked up.
\<close>

function bulk_custom_loop ::
  "env \<Rightarrow> custom_options \<Rightarrow> database \<Rightarrow> string \<Rightarrow> nat \<Rightarrow> string list \<Rightarrow> string \<times> nat \<times> string list" where
  "bulk_custom_loop e options db shortCode attempts looked =
     (if attempts < 5 then
        (case Url_findOne_short_url shortCode db of
           None \<Rightarrow> (shortCode, attempts, looked @ [shortCode])
         | Some existingUrl \<Rightarrow>
             bulk_custom_loop e options db
               (customAlgorithm (math_random e (attempts + 1)) options)
               (attempts + 1) (looked @ [shortCode]))
      else (shortCode, attempts, looked))"
  by pat_completeness auto
termination
  by (relation "measure (\<lambda>(e, options, db, shortCode, attempts, looked). 5 - attempts)") auto

declare bulk_custom_loop.simps [simp del]

text \<open>
  The code generation of one bulk item. An exception of \<^verbatim>\<open>generateShortCode\<close> is caught
  by the item's \<^verbatim>\<open>catch\<close>, which reports \<^verbatim>\<open>PROCESSING_ERROR\<close>.
\<close>

definition bulk_generate ::
  "env \<Rightarrow> string \<Rightarrow> custom_options \<Rightarrow> string \<Rightarrow> database \<Rightarrow> bulk_code \<times> string list" where
  "bulk_generate e algorithm options normalizedUrl db =
     (if algorithm = ''custom'' \<and> object_keys options > 0 then
        (case bulk_custom_loop e options db (customAlgorithm (math_random e 0) options) 0 [] of
           (shortCode, attempts, looked) \<Rightarrow>
             if attempts \<ge> 5 then (GENERATION_FAILED, looked) else (ShortCode shortCode, looked))
      else
        (case generateShortCode e algorithm normalizedUrl db of
           (Inl err, looked) \<Rightarrow> (PROCESSING_ERROR, looked)
         | (Inr shortCode, looked) \<Rightarrow> (ShortCode shortCode, looked)))"

subsection \<open>DELETE /:id\<close>

text \<open>
  The handler's first statement builds the condition for \<^verbatim>\<open>Url.findOne\<close> and reads
  \<^verbatim>\<open>Url.sequelize.Sequelize.Op.or\<close> for it. \<^verbatim>\<open>Url\<close> is the adapter object of
  models/index.js, whose properties are \<^verbatim>\<open>create\<close>, \<^verbatim>\<open>findOne\<close>, \<^verbatim>\<open>findByPk\<close>,
  \<^verbatim>\<open>findAll\<close>, \<^verbatim>\<open>update\<close> and \<^verbatim>\<open>destroy\<close>: \<^verbatim>\<open>Url.sequelize\<close> is \<^verbatim>\<open>undefined\<close> and
  reading a property of it throws a \<^verbatim>\<open>TypeError\<close>. The handler's \<^verbatim>\<open>catch\<close> logs it and
  answers 500; no statement after the first runs, and the store is not touched. (The
  statement that would delete the clicks calls \<^verbatim>\<open>Click.destroy\<close>, a function the
  \<^verbatim>\<open>Click\<close> adapter does not have.) The only operation that removes a link is
  \<^verbatim>\<open>deleteUrl\<close> behind \<^verbatim>\<open>Url.destroy\<close>.
\<close>

definition delete_handler :: "nat \<Rightarrow> database \<Rightarrow> response \<times> database \<times> log_entry list" where
  "delete_handler i db =
     (Json 500 ''URL deletion failed'' ''An error occurred while deleting the URL'', db,
      [LogError ''URL deletion error:''])"

section \<open>Keys and ids of the link table\<close>

text \<open>
  \<^verbatim>\<open>createClick\<close> finds the link to count under the key \<^verbatim>\<open>clickData.url_id\<close>, which the
  handler takes from the field \<^verbatim>\<open>id\<close> of the link it resolved. In every store the
  operations above build from the empty one, a link is stored under its own id, no key
  occurs twice and the counter is above every key.
\<close>

definition consistent_keys :: "database \<Rightarrow> bool" where
  "consistent_keys db =
     (distinct (map fst (urls db))
      \<and> list_all (\<lambda>kv. link_id (snd kv) = fst kv) (urls db)
      \<and> list_all (\<lambda>kv. fst kv < counters_urls db) (urls db))"

section \<open>Example data\<close>

text \<open>
  Concrete inputs for the statements below: link data, requests, stores built with
  \<^verbatim>\<open>createUrl\<close> and \<^verbatim>\<open>createClick\<close> from the empty store, an environment whose
  generators return the same values at every call, and a click store that throws.
\<close>

definition example_urlData :: urlData where
  "example_urlData =
     \<lparr>d_original_url = ''https://example.com/a'', d_short_url = ''abc123'',
      d_user_id = None, d_title = None, d_description = None,
      d_is_active = None, d_expires_at = None\<rparr>"

definition constant_env :: env where
  "constant_env =
     \<lparr>md5_base64 = (\<lambda>n s. ''q83Tz+A/xk=''),
      uuidv4 = (\<lambda>n. ''0f8fad5b-d9cb-469f-a165-70867728950e''),
      date_now = (\<lambda>n. 1700000000000),
      math_random = (\<lambda>n j. 1/2)\<rparr>"

definition second_urlData :: urlData where
  "second_urlData = example_urlData\<lparr>d_original_url := ''https://example.org/b''\<rparr>"

definition one_link_db :: "string \<Rightarrow> database" where
  "one_link_db code = snd (createUrl (example_urlData\<lparr>d_short_url := code\<rparr>) 1000 new_database)"

definition example_request :: "string \<Rightarrow> request" where
  "example_request code =
     \<lparr>param_shortCode = code,
      header_user_agent = Some ''Mozilla/5.0 (Windows NT 10.0; Win64; x64)'',
      header_referer = None, header_referrer = None,
      header_x_forwarded_for = None, header_x_real_ip = None,
      remoteAddress = Some ''203.0.113.7''\<rparr>"

definition expired_link_db :: database where
  "expired_link_db =
     snd (createUrl (example_urlData\<lparr>d_expires_at := Some (Date 500)\<rparr>) 1000 new_database)"

definition failing_click_store :: click_store where
  "failing_click_store c now db = Inl (Error ''click store unavailable'', db)"

definition clicked_db :: database where
  "clicked_db =
     snd (createClick (click_of_request (example_request ''abc123'')
                         (fst (createUrl example_urlData 1000 new_database)))
            1500 (one_link_db ''abc123''))"

definition five_taken_env :: env where
  "five_taken_env = constant_env\<lparr>md5_base64 := (\<lambda>n s. if n < 5 then ''taken0'' else ''free00'')\<rparr>"

definition no_alphabet :: custom_options where
  "no_alphabet = no_options\<lparr>includeNumbers := Some False, includeUppercase := Some False,
     includeLowercase := Some False\<rparr>"

definition six_options :: custom_options where
  "six_options = no_options\<lparr>opt_length := Some 6\<rparr>"

section \<open>Properties of the store\<close>

lemma createUrl_always_stores:
  "map_get (counters_urls db) (urls (snd (createUrl d now db))) = Some (fst (createUrl d now db))"
proof -
  have "map_of (map_set k v m) k = Some v" for k :: nat and v :: url and m
    by (induction m) auto
  then show ?thesis
    by (simp add: createUrl_def map_get_def Let_def)
qed

text \<open>
  C1. The claim: an insert whose short code is already in the store fails with a
  uniqueness violation and stores no second record. The code at that input: the store
  holds a link with code \<open>abc123\<close>; \<^verbatim>\<open>createUrl\<close> with the same code returns a
  record (under the next id) and afterwards two stored links carry the code.
\<close>

theorem createUrl_duplicate_short_code_stored:
  "findUrlByShortCode ''abc123'' (one_link_db ''abc123'') \<noteq> None
   \<and> link_id (fst (Url_create second_urlData 2000 (one_link_db ''abc123''))) = 2
   \<and> short_url (fst (Url_create second_urlData 2000 (one_link_db ''abc123''))) = ''abc123''
   \<and> map (short_url \<circ> snd) (urls (snd (Url_create second_urlData 2000 (one_link_db ''abc123''))))
       = [''abc123'', ''abc123'']
   \<and> map fst (urls (snd (Url_create second_urlData 2000 (one_link_db ''abc123'')))) = [1, 2]"
  by (simp add: Url_create_def createUrl_def new_database_def example_urlData_def
        second_urlData_def one_link_db_def findUrlByShortCode_def map_values_def Let_def)

section \<open>Properties of generateShortCode\<close>

lemma generateShortCode_loop_all_exist:
  assumes "\<forall>n. attempts \<le> n \<and> n < maxAttempts \<longrightarrow>
             Url_findOne_short_url (generate_candidate e algorithm originalUrl n) db \<noteq> None"
  shows "generateShortCode_loop e algorithm originalUrl db attempts looked =
           (Inl exhausted_error,
            looked @ map (generate_candidate e algorithm originalUrl) [attempts..<maxAttempts])"
  using assms
proof (induction e algorithm originalUrl db attempts looked rule: generateShortCode_loop.induct)
  case (1 e algorithm originalUrl db attempts looked)
  show ?case
  proof (cases "attempts < maxAttempts")
    case False
    then show ?thesis
      by (simp add: generateShortCode_loop.simps [of e algorithm originalUrl db attempts looked]
            exhausted_error_def)
  next
    case True
    obtain u where u: "Url_findOne_short_url (generate_candidate e algorithm originalUrl attempts) db = Some u"
      using "1.prems" True by (metis le_refl not_Some_eq)
    have rest: "\<forall>n. attempts + 1 \<le> n \<and> n < maxAttempts \<longrightarrow>
             Url_findOne_short_url (generate_candidate e algorithm originalUrl n) db \<noteq> None"
      using "1.prems" by simp
    have ih: "generateShortCode_loop e algorithm originalUrl db (attempts + 1)
                (looked @ [generate_candidate e algorithm originalUrl attempts]) =
              (Inl exhausted_error,
               (looked @ [generate_candidate e algorithm originalUrl attempts])
                 @ map (generate_candidate e algorithm originalUrl) [attempts + 1..<maxAttempts])"
      using "1.IH" [OF True refl u rest] .
    have split: "[attempts..<maxAttempts] = attempts # [attempts + 1..<maxAttempts]"
      using True by (simp add: upt_conv_Cons)
    show ?thesis
      using True u ih split
      by (simp add: generateShortCode_loop.simps [of e algorithm originalUrl db attempts looked])
  qed
qed

lemma cand_hash: "generate_candidate constant_env ''hash'' url n = ''q83TzA''"
  by (simp add: generate_candidate_def toLowerCase_def lower_char_def uppercase_letters_def
        generateHashCode_def constant_env_def is_alnum_def lowercase_letters_def digits_def)

text \<open>
  C2. When the store has a link for every candidate the generator produces,
  \<^verbatim>\<open>generateShortCode\<close> looks up exactly ten codes, the candidates of attempts 0 to 9
  in order, and then throws the error of exhausted attempts; it returns no code. The
  function is total: the loop is defined with a termination proof.
\<close>

theorem generateShortCode_exhausted:
  assumes "\<forall>n<maxAttempts.
             Url_findOne_short_url (generate_candidate e algorithm originalUrl n) db \<noteq> None"
  shows "generateShortCode e algorithm originalUrl db =
           (Inl exhausted_error, map (generate_candidate e algorithm originalUrl) [0..<10])
         \<and> length (snd (generateShortCode e algorithm originalUrl db)) = 10"
proof -
  have "generateShortCode e algorithm originalUrl db =
          (Inl exhausted_error, [] @ map (generate_candidate e algorithm originalUrl) [0..<maxAttempts])"
    unfolding generateShortCode_def
    by (rule generateShortCode_loop_all_exist) (use assms in simp)
  then show ?thesis by (simp add: maxAttempts_def)
qed

theorem generateShortCode_exhausted_witness:
  "generateShortCode constant_env ''hash'' ''https://example.com/a'' (one_link_db ''q83TzA'')
     = (Inl exhausted_error, replicate 10 ''q83TzA'')"
proof -
  have "\<forall>n<maxAttempts. Url_findOne_short_url
          (generate_candidate constant_env ''hash'' ''https://example.com/a'' n) (one_link_db ''q83TzA'') \<noteq> None"
    by (simp add: cand_hash Url_findOne_short_url_def findUrlByShortCode_def one_link_db_def
          createUrl_def new_database_def example_urlData_def map_values_def Let_def)
  moreover have "generate_candidate constant_env ''hash'' ''https://example.com/a'' = (\<lambda>n. ''q83TzA'')"
    by (rule ext) (simp add: cand_hash)
  ultimately show ?thesis
    using generateShortCode_exhausted [of constant_env "''hash''" "''https://example.com/a''" "one_link_db ''q83TzA''"]
    by (simp add: map_replicate_const)
qed



section \<open>Properties of the resolution route\<close>

lemma is_code_char_excluded:
  "\<not> is_code_char (CHR ''.'')" "\<not> is_code_char (CHR ''%'')" "\<not> is_code_char (CHR ''<'')"
  "\<not> is_code_char (CHR ''>'')" "\<not> is_code_char (CHR 0x27)" "\<not> is_code_char (CHR 0x22)"
  "\<not> is_code_char (CHR ''&'')" "\<not> is_code_char (CHR 0x00)" "\<not> is_code_char (CHR 0x5C)"
  "\<not> is_code_char (CHR ''/'')"
  by (simp_all add: is_code_char_def lowercase_letters_def uppercase_letters_def digits_def)

lemma code_chars_no_path_traversal: "list_all is_code_char s \<Longrightarrow> \<not> path_traversal s"
  by (induction s rule: path_traversal.induct) (auto simp: is_code_char_excluded)

lemma code_chars_no_url_encoding: "list_all is_code_char s \<Longrightarrow> \<not> url_encoding s"
  by (induction s rule: url_encoding.induct) (auto simp: is_code_char_excluded)

lemma code_chars_no_single_char:
  "list_all is_code_char s \<Longrightarrow>
     \<not> xss_characters s \<and> \<not> null_bytes s \<and> \<not> backslashes s \<and> \<not> forward_slashes s"
  by (induction s)
     (auto simp: xss_characters_def null_bytes_def backslashes_def forward_slashes_def
        is_code_char_excluded)

lemma valid_code_matches_no_pattern:
  assumes "validShortCodeRegex s"
  shows "\<not> list_ex (\<lambda>pattern. pattern s) maliciousPatterns"
proof -
  have "list_all is_code_char s"
    using assms by (simp add: validShortCodeRegex_def)
  then show ?thesis
    using code_chars_no_path_traversal code_chars_no_url_encoding code_chars_no_single_char
    by (simp add: maliciousPatterns_def)
qed

lemma validateShortCode_valid:
  "validShortCodeRegex s \<Longrightarrow> validateShortCode s ip = (None, [])"
  using valid_code_matches_no_pattern [of s]
  by (auto simp: validateShortCode_def validShortCodeRegex_def)

lemma get_shortCode_valid:
  "validShortCodeRegex (param_shortCode req) \<Longrightarrow>
     get_shortCode click_create req now db = redirect_handler click_create req now db"
  by (simp add: get_shortCode_def validateShortCode_valid split: prod.splits)

lemma find_none: "list_all (\<lambda>u. short_url u \<noteq> code) us \<Longrightarrow> find (\<lambda>u. short_url u = code) us = None"
  by (induction us) auto

text \<open>
  C3. A short code that passes the format check and that no stored link carries is
  answered 404 by the route, with the store untouched and nothing logged; in particular
  the status is not 410.
\<close>

theorem resolve_unknown_code_not_found:
  assumes "validShortCodeRegex (param_shortCode req)"
      and "list_all (\<lambda>u. short_url u \<noteq> param_shortCode req) (map_values (urls db))"
  shows "get_shortCode click_create req now db =
           (Json 404 ''URL not found'' ''The shortened URL you requested does not exist'', db, [])
         \<and> status_of (fst (get_shortCode click_create req now db)) \<noteq> 410"
proof -
  have "Url_findOne_short_url (param_shortCode req) db = None"
    using assms(2) by (simp add: Url_findOne_short_url_def findUrlByShortCode_def find_none)
  then have "redirect_handler click_create req now db =
           (Json 404 ''URL not found'' ''The shortened URL you requested does not exist'', db, [])"
    by (simp add: redirect_handler_def)
  then show ?thesis
    using assms(1) by (simp add: get_shortCode_valid)
qed

theorem resolve_unknown_code_not_found_witness:
  "get_shortCode Click_create (example_request ''nosuch1'') 2000 (one_link_db ''abc123'') =
     (Json 404 ''URL not found'' ''The shortened URL you requested does not exist'',
      one_link_db ''abc123'', [])"
proof -
  have v: "validShortCodeRegex (param_shortCode (example_request ''nosuch1''))"
    by (simp add: example_request_def validShortCodeRegex_def is_code_char_def
          lowercase_letters_def uppercase_letters_def digits_def)
  have a: "list_all (\<lambda>u. short_url u \<noteq> param_shortCode (example_request ''nosuch1''))
             (map_values (urls (one_link_db ''abc123'')))"
    by (simp add: example_request_def one_link_db_def createUrl_def new_database_def
          example_urlData_def map_values_def Let_def)
  show ?thesis
    using resolve_unknown_code_not_found [OF v a, of Click_create 2000] by simp
qed

text \<open>
  C4. When the lookup of the requested code returns a link whose \<^verbatim>\<open>expires_at\<close> is a
  date before the time of resolution, the handler answers 410, whether the link is
  active (expired) or not (disabled); so does the whole route for a code that passes
  the format check. When several links carry one code the lookup returns the one
  stored first, and that link is the one the statement is about.
\<close>

theorem resolve_expired_gone:
  assumes "Url_findOne_short_url (param_shortCode req) db = Some u"
      and "expires_at u = Some (Date t)"
      and "t < now"
  shows "redirect_handler click_create req now db
           = (if is_active u
              then (Json 410 ''URL expired'' ''This shortened URL has expired'', db, [])
              else (Json 410 ''URL disabled'' ''This shortened URL has been disabled'', db, []))
         \<and> status_of (fst (redirect_handler click_create req now db)) = 410
         \<and> (validShortCodeRegex (param_shortCode req) \<longrightarrow>
              status_of (fst (get_shortCode click_create req now db)) = 410)"
proof -
  have "isExpired u now"
    using assms(2,3) by (simp add: isExpired_def)
  then have h: "redirect_handler click_create req now db
           = (if is_active u
              then (Json 410 ''URL expired'' ''This shortened URL has expired'', db, [])
              else (Json 410 ''URL disabled'' ''This shortened URL has been disabled'', db, []))"
    using assms(1) by (simp add: redirect_handler_def)
  then show ?thesis
    by (simp add: get_shortCode_valid)
qed

theorem resolve_expired_gone_witness:
  "get_shortCode Click_create (example_request ''abc123'') 2000 expired_link_db
     = (Json 410 ''URL expired'' ''This shortened URL has expired'', expired_link_db, [])"
proof -
  let ?u = "fst (createUrl (example_urlData\<lparr>d_expires_at := Some (Date 500)\<rparr>) 1000 new_database)"
  have f: "Url_findOne_short_url (param_shortCode (example_request ''abc123'')) expired_link_db = Some ?u"
    by (simp add: example_request_def expired_link_db_def createUrl_def new_database_def
          example_urlData_def map_values_def Let_def Url_findOne_short_url_def findUrlByShortCode_def)
  have e: "expires_at ?u = Some (Date 500)"
    by (simp add: createUrl_def example_urlData_def Let_def)
  have a: "is_active ?u"
    by (simp add: createUrl_def example_urlData_def Let_def)
  have v: "validShortCodeRegex (param_shortCode (example_request ''abc123''))"
    by (simp add: example_request_def validShortCodeRegex_def is_code_char_def
          lowercase_letters_def uppercase_letters_def digits_def)
  have "(500::int) < 2000" by simp
  from resolve_expired_gone [OF f e this, of Click_create] a v show ?thesis
    by (simp add: get_shortCode_valid)
qed

text \<open>
  C5. For a link that is found, active and not expired: when the click store throws
  (leaving any store behind), the handler still answers with the 301 redirect to the
  link's \<^verbatim>\<open>original_url\<close>, and so does the whole route for a code that passes the format
  check.
\<close>

theorem click_failure_still_redirects:
  assumes "Url_findOne_short_url (param_shortCode req) db = Some u"
      and "is_active u"
      and "\<not> isExpired u now"
      and "click_create (click_of_request req u) now db = Inl (analyticsError, db')"
  shows "fst (redirect_handler click_create req now db) = Redirect 301 (original_url u)
         \<and> (validShortCodeRegex (param_shortCode req) \<longrightarrow>
              fst (get_shortCode click_create req now db) = Redirect 301 (original_url u))"
proof -
  have "fst (redirect_handler click_create req now db) = Redirect 301 (original_url u)"
    using assms by (simp add: redirect_handler_def)
  then show ?thesis
    by (simp add: get_shortCode_valid)
qed

theorem click_failure_still_redirects_witness:
  "fst (get_shortCode failing_click_store (example_request ''abc123'') 2000 (one_link_db ''abc123''))
     = Redirect 301 ''https://example.com/a''"
proof -
  let ?u = "fst (createUrl (example_urlData\<lparr>d_short_url := ''abc123''\<rparr>) 1000 new_database)"
  let ?req = "example_request ''abc123''"
  let ?db = "one_link_db ''abc123''"
  have f: "Url_findOne_short_url (param_shortCode ?req) ?db = Some ?u"
    by (simp add: example_request_def one_link_db_def createUrl_def new_database_def
          example_urlData_def map_values_def Let_def Url_findOne_short_url_def findUrlByShortCode_def)
  have a: "is_active ?u"
    by (simp add: createUrl_def example_urlData_def Let_def)
  have e: "\<not> isExpired ?u 2000"
    by (simp add: createUrl_def example_urlData_def Let_def isExpired_def)
  have c: "failing_click_store (click_of_request ?req ?u) 2000 ?db
             = Inl (Error ''click store unavailable'', ?db)"
    by (simp add: failing_click_store_def)
  have v: "validShortCodeRegex (param_shortCode ?req)"
    by (simp add: example_request_def validShortCodeRegex_def is_code_char_def
          lowercase_letters_def uppercase_letters_def digits_def)
  have o: "original_url ?u = ''https://example.com/a''"
    by (simp add: createUrl_def example_urlData_def Let_def)
  from click_failure_still_redirects [of ?req ?db ?u 2000 failing_click_store, OF f a e c] v o
  show ?thesis
    by simp
qed



section \<open>Resolution and the stored link\<close>

lemma map_of_map_set: "map_of (map_set k v m) = (map_of m)(k \<mapsto> v)"
  by (induction m) auto

lemma find_map_set_same_code:
  assumes "distinct (map fst m)"
      and "list_all (\<lambda>kv. link_id (snd kv) = fst kv) m"
      and "find (\<lambda>x. short_url x = code) (map snd m) = Some u"
      and "short_url u' = code"
  shows "find (\<lambda>x. short_url x = code) (map snd (map_set (link_id u) u' m)) = Some u'"
  using assms
proof (induction m)
  case Nil
  then show ?case by simp
next
  case (Cons kv m)
  obtain k v where kv: "kv = (k, v)" by (cases kv)
  show ?case
  proof (cases "short_url v = code")
    case True
    with Cons.prems kv have "u = v" "link_id v = k" by simp_all
    with True Cons.prems(4) kv show ?thesis by simp
  next
    case False
    with Cons.prems kv have found: "find (\<lambda>x. short_url x = code) (map snd m) = Some u"
      by simp
    then have "u \<in> snd ` set m"
      by (metis find_Some_iff nth_mem set_map)
    then obtain k' where "(k', u) \<in> set m" by force
    moreover from this Cons.prems(2) have "link_id u = k'"
      by (auto simp: list_all_iff)
    ultimately have "link_id u \<in> fst ` set m" by force
    with Cons.prems(1) kv have neq: "k \<noteq> link_id u" by auto
    have "find (\<lambda>x. short_url x = code) (map snd (map_set (link_id u) u' m)) = Some u'"
      using Cons.IH Cons.prems found by simp
    with False neq kv show ?thesis by simp
  qed
qed

lemma find_key_is_id:
  assumes "list_all (\<lambda>kv. link_id (snd kv) = fst kv) m"
      and "distinct (map fst m)"
      and "find (\<lambda>x. short_url x = code) (map snd m) = Some u"
  shows "map_of m (link_id u) = Some u"
proof -
  from assms(3) have "u \<in> snd ` set m"
    by (metis find_Some_iff nth_mem set_map)
  then obtain k where k: "(k, u) \<in> set m" by force
  with assms(1) have "link_id u = k" by (auto simp: list_all_iff)
  with k assms(2) show ?thesis by simp
qed

lemma find_short_url: "find (\<lambda>x. short_url x = code) us = Some u \<Longrightarrow> short_url u = code"
  by (induction us) (auto split: if_splits)

lemma consistent_keys_map_set:
  assumes "consistent_keys db" and "map_of (urls db) k = Some u" and "link_id u' = k"
  shows "consistent_keys (db\<lparr>urls := map_set k u' (urls db)\<rparr>)"
proof -
  have "distinct (map fst m) \<Longrightarrow> map_of m k = Some u \<Longrightarrow> map fst (map_set k u' m) = map fst m" for m
    by (induction m) (auto split: if_splits)
  moreover have "list_all (\<lambda>kv. link_id (snd kv) = fst kv) m \<Longrightarrow>
     list_all (\<lambda>kv. link_id (snd kv) = fst kv) (map_set k u' m)" for m
    using assms(3) by (induction m) auto
  moreover have "list_all (\<lambda>kv. fst kv < n) m \<Longrightarrow> map_of m k = Some u \<Longrightarrow>
     list_all (\<lambda>kv. fst kv < n) (map_set k u' m)" for m n
    by (induction m) (auto split: if_splits)
  ultimately show ?thesis
    using assms(1,2) by (simp add: consistent_keys_def)
qed

text \<open>One resolution of a found, active, unexpired link with the repository's click store.\<close>

lemma redirect_handler_counts_click:
  assumes "consistent_keys db"
      and "Url_findOne_short_url (param_shortCode req) db = Some u"
      and "is_active u"
      and "\<not> isExpired u now"
  shows "fst (redirect_handler Click_create req now db) = Redirect 301 (original_url u)"
    and "Url_findOne_short_url (param_shortCode req) (fst (snd (redirect_handler Click_create req now db)))
           = Some (u\<lparr>click_count := click_count u + 1\<rparr>)"
    and "consistent_keys (fst (snd (redirect_handler Click_create req now db)))"
proof -
  let ?code = "param_shortCode req"
  let ?u' = "u\<lparr>click_count := click_count u + 1\<rparr>"
  from assms(2) have ne: "?code \<noteq> []" and
    found: "find (\<lambda>x. short_url x = ?code) (map snd (urls db)) = Some u"
    by (auto simp: Url_findOne_short_url_def findUrlByShortCode_def map_values_def split: if_splits)
  from assms(1) have d: "distinct (map fst (urls db))"
    and l: "list_all (\<lambda>kv. link_id (snd kv) = fst kv) (urls db)"
    by (simp_all add: consistent_keys_def)
  have key: "map_of (urls db) (link_id u) = Some u"
    using find_key_is_id [OF l d found] .
  have db': "fst (snd (redirect_handler Click_create req now db))
               = db\<lparr>counters_clicks := counters_clicks db + 1,
                     clicks := map_set (counters_clicks db)
                       (fst (createClick (click_of_request req u) now db)) (clicks db),
                     urls := map_set (link_id u) ?u' (urls db)\<rparr>"
    using assms(2,3,4) key
    by (simp add: redirect_handler_def Click_create_def createClick_def Let_def map_get_def
          click_of_request_def)
  show "fst (redirect_handler Click_create req now db) = Redirect 301 (original_url u)"
    using assms(2,3,4)
    by (simp add: redirect_handler_def Click_create_def split: prod.splits)
  have "short_url ?u' = ?code"
    using find_short_url [OF found] by simp
  from find_map_set_same_code [OF d l found this]
  show "Url_findOne_short_url ?code (fst (snd (redirect_handler Click_create req now db))) = Some ?u'"
    using ne by (simp add: db' Url_findOne_short_url_def findUrlByShortCode_def map_values_def)
  have "consistent_keys (db\<lparr>urls := map_set (link_id u) ?u' (urls db)\<rparr>)"
    using consistent_keys_map_set [OF assms(1) key] by simp
  then show "consistent_keys (fst (snd (redirect_handler Click_create req now db)))"
    by (simp add: db' consistent_keys_def)
qed

lemma consistent_keys_new_database: "consistent_keys new_database"
  by (simp add: consistent_keys_def new_database_def)

lemma consistent_keys_createUrl:
  assumes "consistent_keys db"
  shows "consistent_keys (snd (createUrl d now db))"
proof -
  let ?n = "counters_urls db"
  have fresh: "list_all (\<lambda>kv. fst kv < ?n) m \<Longrightarrow> map_set ?n v m = m @ [(?n, v)]" for m and v :: url
    by (induction m) auto
  have "list_all (\<lambda>kv. fst kv < ?n) m \<Longrightarrow> ?n \<notin> fst ` set m" for m :: "(nat \<times> url) list"
    by (auto simp: list_all_iff)
  moreover have "list_all (\<lambda>kv. fst kv < ?n) m \<Longrightarrow> list_all (\<lambda>kv. fst kv < ?n + 1) m"
    for m :: "(nat \<times> url) list"
    by (induction m) auto
  ultimately show ?thesis
    using assms by (simp add: consistent_keys_def createUrl_def Let_def fresh)
qed

lemma one_link_db_consistent: "consistent_keys (one_link_db code)"
  unfolding one_link_db_def
  by (rule consistent_keys_createUrl) (rule consistent_keys_new_database)

lemma one_link_db_lookup:
  "Url_findOne_short_url ''abc123'' (one_link_db ''abc123'')
     = Some (fst (createUrl example_urlData 1000 new_database))"
  by (simp add: one_link_db_def createUrl_def new_database_def example_urlData_def
        map_values_def Let_def Url_findOne_short_url_def findUrlByShortCode_def)

text \<open>
  C6, as stated: resolving an existing, active, unexpired code leaves the stored link
  unchanged. It does not: \<^verbatim>\<open>Click.create\<close> is \<^verbatim>\<open>createClick\<close>, which adds one to
  \<^verbatim>\<open>click_count\<close> of the stored link. After one resolution of \<open>abc123\<close> the link
  stored under id 1 has \<^verbatim>\<open>click_count\<close> 1 where it had 0.
\<close>

theorem resolution_changes_stored_link:
  "fst (get_shortCode Click_create (example_request ''abc123'') 2000 (one_link_db ''abc123''))
     = Redirect 301 ''https://example.com/a''
   \<and> map_option click_count (findUrlById 1 (one_link_db ''abc123'')) = Some 0
   \<and> map_option click_count
        (findUrlById 1
           (fst (snd (get_shortCode Click_create (example_request ''abc123'') 2000
                        (one_link_db ''abc123''))))) = Some 1
   \<and> findUrlById 1 (fst (snd (get_shortCode Click_create (example_request ''abc123'') 2000
                                (one_link_db ''abc123''))))
       \<noteq> findUrlById 1 (one_link_db ''abc123'')"
proof -
  have v: "validShortCodeRegex (param_shortCode (example_request ''abc123''))"
    by (simp add: example_request_def validShortCodeRegex_def is_code_char_def
          lowercase_letters_def uppercase_letters_def digits_def)
  have h: "redirect_handler Click_create (example_request ''abc123'') 2000 (one_link_db ''abc123'')
        = (Redirect 301 ''https://example.com/a'',
           snd (createClick (click_of_request (example_request ''abc123'')
                  (fst (createUrl example_urlData 1000 new_database))) 2000 (one_link_db ''abc123'')),
           [])"
    using one_link_db_lookup
    by (simp add: redirect_handler_def example_request_def Click_create_def isExpired_def
          createUrl_def example_urlData_def Let_def split: prod.splits)
  show ?thesis
    by (simp add: get_shortCode_valid [OF v] h)
       (simp add: one_link_db_def createClick_def createUrl_def new_database_def
          example_urlData_def click_of_request_def example_request_def Let_def map_get_def
          findUrlById_def)
qed

text \<open>
  C6, amended: for an existing, active code that is unexpired at both times, resolving
  it twice redirects to the same \<^verbatim>\<open>original_url\<close> both times; each resolution adds one
  to \<^verbatim>\<open>click_count\<close> of the stored link and changes no other field of it.
\<close>

theorem resolve_twice_same_target:
  assumes "consistent_keys db"
      and "Url_findOne_short_url (param_shortCode req) db = Some u"
      and "is_active u"
      and "\<not> isExpired u now1"
      and "\<not> isExpired u now2"
      and "db1 = fst (snd (redirect_handler Click_create req now1 db))"
      and "db2 = fst (snd (redirect_handler Click_create req now2 db1))"
  shows "fst (redirect_handler Click_create req now1 db) = Redirect 301 (original_url u)
       \<and> fst (redirect_handler Click_create req now2 db1) = Redirect 301 (original_url u)
       \<and> Url_findOne_short_url (param_shortCode req) db1 = Some (u\<lparr>click_count := click_count u + 1\<rparr>)
       \<and> Url_findOne_short_url (param_shortCode req) db2 = Some (u\<lparr>click_count := click_count u + 2\<rparr>)"
proof -
  let ?u1 = "u\<lparr>click_count := click_count u + 1\<rparr>"
  note first = redirect_handler_counts_click [OF assms(1,2,3,4)]
  have f1: "Url_findOne_short_url (param_shortCode req) db1 = Some ?u1"
    and c1: "consistent_keys db1"
    using first(2,3) assms(6) by simp_all
  have a1: "is_active ?u1" using assms(3) by simp
  have e1: "\<not> isExpired ?u1 now2" using assms(5) by (simp add: isExpired_def)
  note second = redirect_handler_counts_click [OF c1 f1 a1 e1]
  have "?u1\<lparr>click_count := click_count ?u1 + 1\<rparr> = u\<lparr>click_count := click_count u + 2\<rparr>"
    by simp
  with first(1) second(1,2) f1 assms(7) show ?thesis
    by simp
qed

theorem resolve_twice_same_target_witness:
  "fst (redirect_handler Click_create (example_request ''abc123'') 2000 (one_link_db ''abc123''))
     = Redirect 301 ''https://example.com/a''
   \<and> fst (redirect_handler Click_create (example_request ''abc123'') 3000
           (fst (snd (redirect_handler Click_create (example_request ''abc123'') 2000
                        (one_link_db ''abc123'')))))
     = Redirect 301 ''https://example.com/a''
   \<and> map_option click_count
        (Url_findOne_short_url ''abc123''
           (fst (snd (redirect_handler Click_create (example_request ''abc123'') 2000
                        (one_link_db ''abc123''))))) = Some 1"
proof -
  let ?u = "fst (createUrl example_urlData 1000 new_database)"
  let ?req = "example_request ''abc123''"
  have p: "param_shortCode ?req = ''abc123''" by (simp add: example_request_def)
  have f: "Url_findOne_short_url (param_shortCode ?req) (one_link_db ''abc123'') = Some ?u"
    by (simp add: p one_link_db_lookup)
  have a: "is_active ?u" by (simp add: createUrl_def example_urlData_def Let_def)
  have e: "\<not> isExpired ?u 2000" "\<not> isExpired ?u 3000"
    by (simp_all add: createUrl_def example_urlData_def Let_def isExpired_def)
  have o: "original_url ?u = ''https://example.com/a''" "click_count ?u = 0"
    by (simp_all add: createUrl_def example_urlData_def Let_def)
  from resolve_twice_same_target [OF one_link_db_consistent f a e refl refl] p o
  show ?thesis by simp
qed



section \<open>Rejection of malformed codes\<close>

text \<open>
  Every code that breaks one of the syntactic rules fails the format check; the route
  answers it 400 without touching the store, whatever the store holds. No code at all
  reaches the \<^verbatim>\<open>console.warn\<close> of the pattern loop: a code that passes the format check
  matches none of the six patterns, and one that fails it has been answered before the
  loop.
\<close>

lemma validateShortCode_never_warns: "snd (validateShortCode s ip) = []"
  using valid_code_matches_no_pattern [of s]
  by (simp add: validateShortCode_def)

lemma invalid_code_rejected:
  assumes "\<not> validShortCodeRegex (param_shortCode req)"
  shows "status_of (fst (get_shortCode click_create req now db)) = 400
         \<and> snd (get_shortCode click_create req now db) = (db, [])"
  using assms by (simp add: get_shortCode_def validateShortCode_def)

lemma violations_fail_format_check:
  "length s > 20 \<Longrightarrow> \<not> validShortCodeRegex s"
  "\<not> list_all is_code_char s \<Longrightarrow> \<not> validShortCodeRegex s"
  "path_traversal s \<Longrightarrow> \<not> validShortCodeRegex s"
  "url_encoding s \<Longrightarrow> \<not> validShortCodeRegex s"
  "null_bytes s \<Longrightarrow> \<not> validShortCodeRegex s"
  "xss_characters s \<Longrightarrow> \<not> validShortCodeRegex s"
  using code_chars_no_path_traversal [of s] code_chars_no_url_encoding [of s]
    code_chars_no_single_char [of s]
  by (auto simp: validShortCodeRegex_def)

text \<open>
  C7. The claim: a malformed code is answered 400 before any lookup, and the rejection
  is logged with the code and the client's IP. The code at the code \<open>..\<close>: it is a
  path traversal, the middleware answers 400 at the format check and writes nothing to
  the console; the route returns that answer with the store as it was. Nothing is
  written either for a code with \<open><\<close> and \<open>>\<close>, for one with encoded sequences, or for
  one of 21 letters.
\<close>

theorem path_traversal_code_rejected_unlogged:
  "path_traversal ''..''
   \<and> validateShortCode ''..'' (extractClientIp (example_request ''..''))
     = (Some (Json 400 ''Invalid URL''
          ''Invalid short code format. Only alphanumeric characters, hyphens, and underscores are allowed.''),
        [])
   \<and> get_shortCode Click_create (example_request ''..'') 2000 (one_link_db ''abc123'')
     = (Json 400 ''Invalid URL''
          ''Invalid short code format. Only alphanumeric characters, hyphens, and underscores are allowed.'',
        one_link_db ''abc123'', [])
   \<and> snd (validateShortCode ''<script>'' (extractClientIp (example_request ''<script>''))) = []
   \<and> snd (validateShortCode ''a%2e%2eb'' (extractClientIp (example_request ''a%2e%2eb''))) = []
   \<and> snd (validateShortCode ''abcdefghijklmnopqrstu''
            (extractClientIp (example_request ''abcdefghijklmnopqrstu''))) = []"
  by (simp add: get_shortCode_def validateShortCode_def validShortCodeRegex_def is_code_char_def
        lowercase_letters_def uppercase_letters_def digits_def example_request_def)

section \<open>Deleting a link\<close>

lemma deleteUrl_keeps_clicks: "clicks (snd (deleteUrl i db)) = clicks db"
  by (simp add: deleteUrl_def map_delete_def)


lemma delete_handler_fails:
  "status_of (fst (delete_handler i db)) = 500 \<and> fst (snd (delete_handler i db)) = db"
  by (simp add: delete_handler_def)

text \<open>
  C9. The claim: deleting a link deletes the clicks that refer to it. The code on the
  store in which link 1 has one click: \<^verbatim>\<open>Url.destroy\<close> with id 1 reports success and
  removes the link, and the click with \<^verbatim>\<open>url_id\<close> 1 is still stored.
\<close>

theorem deleteUrl_leaves_clicks:
  "fst (Url_destroy 1 clicked_db) = True
   \<and> findUrlById 1 clicked_db \<noteq> None
   \<and> findUrlById 1 (snd (Url_destroy 1 clicked_db)) = None
   \<and> map url_id (findClicksByUrlId 1 clicked_db) = [1]
   \<and> map url_id (findClicksByUrlId 1 (snd (Url_destroy 1 clicked_db))) = [1]"
  by (simp add: Url_destroy_def deleteUrl_def map_delete_def findUrlById_def map_get_def
        findClicksByUrlId_def map_values_def clicked_db_def one_link_db_def createClick_def
        createUrl_def new_database_def example_urlData_def click_of_request_def
        example_request_def Let_def)



section \<open>Properties of customAlgorithm\<close>

lemma random_index_bounds:
  assumes "unit_interval r" and "0 < n"
  shows "0 \<le> random_index r n" and "random_index r n < int n"
proof -
  from assms have "0 \<le> r * real n" by (simp add: unit_interval_def)
  then show "0 \<le> random_index r n" by (simp add: random_index_def)
  from assms have "r * real n < real n" by (simp add: unit_interval_def)
  then show "random_index r n < int n" by (simp add: random_index_def floor_less_iff)
qed

lemma charAt_random_index:
  assumes "unit_interval r" and "chars \<noteq> []"
  shows "\<exists>c. c \<in> set chars \<and> charAt chars (random_index r (length chars)) = [c]"
proof -
  from assms(2) have "0 < length chars" by simp
  from random_index_bounds [OF assms(1) this]
  have "0 \<le> random_index r (length chars)" "nat (random_index r (length chars)) < length chars"
    by simp_all
  then show ?thesis
    by (auto simp: charAt_def)
qed

lemma customAlgorithm_loop_result:
  assumes "\<forall>i. unit_interval (rnd i)" and "chars \<noteq> []"
  shows "length (customAlgorithm_loop rnd chars len i result) = length result + nat (len - int i)
         \<and> set (customAlgorithm_loop rnd chars len i result) \<subseteq> set result \<union> set chars"
  using assms
proof (induction rnd chars len i result rule: customAlgorithm_loop.induct)
  case (1 rnd chars len i result)
  show ?case
  proof (cases "int i < len")
    case False
    then have "customAlgorithm_loop rnd chars len i result = result"
      by (simp add: customAlgorithm_loop.simps [of rnd chars len i result])
    moreover from False have "nat (len - int i) = 0" by simp
    ultimately show ?thesis by simp
  next
    case True
    obtain c where c: "c \<in> set chars" "charAt chars (random_index (rnd i) (length chars)) = [c]"
      using charAt_random_index "1.prems" by blast
    have unfold: "customAlgorithm_loop rnd chars len i result
                    = customAlgorithm_loop rnd chars len (i + 1) (result @ [c])"
      using True c(2) by (simp add: customAlgorithm_loop.simps [of rnd chars len i result])
    have ih: "length (customAlgorithm_loop rnd chars len (i + 1) (result @ [c]))
                = length (result @ [c]) + nat (len - int (i + 1))
              \<and> set (customAlgorithm_loop rnd chars len (i + 1) (result @ [c]))
                  \<subseteq> set (result @ [c]) \<union> set chars"
      using "1.IH" [OF True "1.prems"] c(2) by simp
    have n: "length (result @ [c]) + nat (len - int (i + 1)) = length result + nat (len - int i)"
      using True by simp
    have s: "set (result @ [c]) \<union> set chars = set result \<union> set chars"
      using c(1) by auto
    show ?thesis
      unfolding unfold using ih n s by metis
  qed
qed


lemma alphabet_letters:
  "CHR ''a'' \<in> set (filter (\<lambda>c. c \<notin> set similar_chars) lowercase_letters)"
  "CHR ''A'' \<in> set (filter (\<lambda>c. c \<notin> set similar_chars) uppercase_letters)"
  "CHR ''2'' \<in> set (filter (\<lambda>c. c \<notin> set similar_chars) digits)"
  "CHR ''a'' \<in> set lowercase_letters" "CHR ''A'' \<in> set uppercase_letters" "CHR ''2'' \<in> set digits"
  by (simp_all add: similar_chars_def lowercase_letters_def uppercase_letters_def digits_def)

lemma custom_chars_nonempty:
  assumes "default_to True (includeNumbers options) \<or> default_to True (includeUppercase options)
           \<or> default_to True (includeLowercase options)"
  shows "custom_chars options \<noteq> []"
proof -
  have "set (custom_chars options) \<noteq> {}"
    using assms alphabet_letters
    by (auto simp: custom_chars_def Let_def simp del: filter_set set_filter)
  then show ?thesis by auto
qed

lemma custom_chars_exclude_similar:
  "default_to True (excludeSimilar options) \<Longrightarrow> set (custom_chars options) \<inter> set similar_chars = {}"
  by (auto simp: custom_chars_def Let_def)

lemma custom_chars_default:
  "custom_chars no_options = ''abcdefghijkmnpqrstuvwxyzABCDEFGHJKLMNPQRSTUVWXYZ23456789''"
  by (simp add: custom_chars_def no_options_def default_to_def similar_chars_def
        lowercase_letters_def uppercase_letters_def digits_def)

text \<open>
  C10, as stated: for every combination of the options the result has exactly
  \<^verbatim>\<open>length\<close> characters. With the three \<^verbatim>\<open>include\<close> flags off the alphabet is empty,
  \<^verbatim>\<open>charAt\<close> returns the empty string at every draw, and the result is the empty
  string, where \<^verbatim>\<open>length\<close> is 7.
\<close>

theorem customAlgorithm_empty_alphabet:
  "customAlgorithm (math_random constant_env 0) no_alphabet = []
   \<and> default_to 7 (opt_length no_alphabet) = 7
   \<and> length (customAlgorithm (math_random constant_env 0) no_alphabet) \<noteq> 7"
proof -
  have c: "custom_chars no_alphabet = []"
    by (simp add: custom_chars_def no_alphabet_def no_options_def default_to_def)
  have "customAlgorithm_loop rnd [] len i result = result" for rnd len i result
    by (induction rnd "[] :: string" len i result rule: customAlgorithm_loop.induct)
       (simp add: customAlgorithm_loop.simps [of _ "[]"] charAt_def)
  then have r: "customAlgorithm (math_random constant_env 0) no_alphabet = []"
    by (simp add: customAlgorithm_def c)
  have d: "default_to 7 (opt_length no_alphabet) = 7"
    by (simp add: no_alphabet_def no_options_def default_to_def)
  show ?thesis
    by (simp add: r d)
qed


text \<open>
  C10, amended: when at least one of \<^verbatim>\<open>includeNumbers\<close>, \<^verbatim>\<open>includeUppercase\<close>,
  \<^verbatim>\<open>includeLowercase\<close> is on (each is on by default) and \<^verbatim>\<open>length\<close> (7 by default) is
  not negative, the result has exactly \<^verbatim>\<open>length\<close> characters, each of the alphabet
  built from the flags, and none of \<open>0 O o 1 l I\<close> when \<^verbatim>\<open>excludeSimilar\<close> is on (the
  default). \<^verbatim>\<open>Math.random\<close> returns numbers from 0 (included) to 1 (excluded).
\<close>

theorem customAlgorithm_length_and_alphabet:
  assumes "\<forall>i. unit_interval (rnd i)"
      and "default_to True (includeNumbers options) \<or> default_to True (includeUppercase options)
           \<or> default_to True (includeLowercase options)"
      and "0 \<le> default_to 7 (opt_length options)"
  shows "int (length (customAlgorithm rnd options)) = default_to 7 (opt_length options)
         \<and> set (customAlgorithm rnd options) \<subseteq> set (custom_chars options)
         \<and> (default_to True (excludeSimilar options) \<longrightarrow>
               set (customAlgorithm rnd options) \<inter> set similar_chars = {})"
proof -
  have ne: "custom_chars options \<noteq> []"
    using assms(2) by (rule custom_chars_nonempty)
  from customAlgorithm_loop_result [OF assms(1) ne, of "default_to 7 (opt_length options)" 0 "[]"]
  have len: "length (customAlgorithm rnd options) = nat (default_to 7 (opt_length options))"
    and sub: "set (customAlgorithm rnd options) \<subseteq> set (custom_chars options)"
    by (simp_all add: customAlgorithm_def)
  from len assms(3) have "int (length (customAlgorithm rnd options)) = default_to 7 (opt_length options)"
    by simp
  moreover from sub custom_chars_exclude_similar [of options]
  have "default_to True (excludeSimilar options) \<longrightarrow>
               set (customAlgorithm rnd options) \<inter> set similar_chars = {}"
    by auto
  ultimately show ?thesis using sub by simp
qed

theorem customAlgorithm_length_and_alphabet_witness:
  "length (customAlgorithm (math_random constant_env 0) no_options) = 7
   \<and> set (customAlgorithm (math_random constant_env 0) no_options)
       \<subseteq> set ''abcdefghijkmnpqrstuvwxyzABCDEFGHJKLMNPQRSTUVWXYZ23456789''"
proof -
  have r: "\<forall>i. unit_interval (math_random constant_env 0 i)"
    by (simp add: constant_env_def unit_interval_def)
  have f: "default_to True (includeNumbers no_options) \<or> default_to True (includeUppercase no_options)
           \<or> default_to True (includeLowercase no_options)"
    by (simp add: no_options_def default_to_def)
  have l: "0 \<le> default_to 7 (opt_length no_options)" "default_to 7 (opt_length no_options) = 7"
    by (simp_all add: no_options_def default_to_def)
  from customAlgorithm_length_and_alphabet [OF r f l(1)] l(2) show ?thesis
    by (simp add: custom_chars_default)
qed


section \<open>The retry bound of bulk shortening\<close>

lemma bulk_custom_loop_all_exist:
  assumes "\<forall>n. attempts \<le> n \<and> n < 5 \<longrightarrow>
             Url_findOne_short_url (customAlgorithm (math_random e n) options) db \<noteq> None"
      and "attempts \<le> 5"
  shows "bulk_custom_loop e options db (customAlgorithm (math_random e attempts) options) attempts looked =
           (customAlgorithm (math_random e 5) options, 5,
            looked @ map (\<lambda>n. customAlgorithm (math_random e n) options) [attempts..<5])"
  using assms
proof (induction e options db "customAlgorithm (math_random e attempts) options" attempts looked
        rule: bulk_custom_loop.induct)
  case (1 e options db attempts looked)
  let ?cand = "\<lambda>n. customAlgorithm (math_random e n) options"
  show ?case
  proof (cases "attempts < 5")
    case False
    then have "bulk_custom_loop e options db (?cand attempts) attempts looked
                 = (?cand attempts, attempts, looked)"
      by (simp add: bulk_custom_loop.simps [of e options db "?cand attempts" attempts looked])
    moreover from False "1.prems"(2) have "attempts = 5" by simp
    ultimately show ?thesis by simp
  next
    case True
    obtain u where u: "Url_findOne_short_url (?cand attempts) db = Some u"
      using "1.prems"(1) True by (metis le_refl not_Some_eq)
    have rest: "\<forall>n. attempts + 1 \<le> n \<and> n < 5 \<longrightarrow> Url_findOne_short_url (?cand n) db \<noteq> None"
      using "1.prems"(1) by simp
    have le: "attempts + 1 \<le> 5" using True by simp
    have ih: "bulk_custom_loop e options db (?cand (attempts + 1)) (attempts + 1)
                (looked @ [?cand attempts]) =
              (?cand 5, 5, (looked @ [?cand attempts]) @ map ?cand [attempts + 1..<5])"
      using "1.hyps" [OF True u rest le] .
    have split: "[attempts..<5] = attempts # [attempts + 1..<5]"
      using True by (simp add: upt_conv_Cons)
    show ?thesis
      using True u ih split
      by (simp add: bulk_custom_loop.simps [of e options db "?cand attempts" attempts looked])
  qed
qed

lemma custom_chars_six:
  "custom_chars six_options = ''abcdefghijkmnpqrstuvwxyzABCDEFGHJKLMNPQRSTUVWXYZ23456789''"
  by (simp add: custom_chars_def six_options_def no_options_def default_to_def similar_chars_def
        lowercase_letters_def uppercase_letters_def digits_def)

lemma customAlgorithm_loop_constant:
  assumes "\<forall>i. charAt chars (random_index (rnd i) (length chars)) = [c]"
  shows "customAlgorithm_loop rnd chars 6 0 [] = replicate 6 c"
  using assms
  by (simp add: customAlgorithm_loop.simps [of rnd chars] numeral_eq_Suc)

lemma cand_six: "customAlgorithm (math_random constant_env n) six_options = ''EEEEEE''"
proof -
  let ?chars = "''abcdefghijkmnpqrstuvwxyzABCDEFGHJKLMNPQRSTUVWXYZ23456789''"
  have r: "math_random constant_env n = (\<lambda>j. 1/2)"
    by (simp add: constant_env_def)
  have len: "length ?chars = 56"
    by simp
  have c: "charAt ?chars (random_index (1/2) 56) = ''E''"
    by (simp add: charAt_def random_index_def)
  have "\<forall>i. charAt ?chars (random_index (math_random constant_env n i) (length ?chars)) = ''E''"
    unfolding r len using c by simp
  from customAlgorithm_loop_constant [OF this]
  have "customAlgorithm_loop (math_random constant_env n) ?chars 6 0 [] = ''EEEEEE''"
    by (simp add: numeral_eq_Suc)
  moreover have "default_to 7 (opt_length six_options) = 6"
    by (simp add: six_options_def no_options_def default_to_def)
  ultimately show ?thesis
    by (simp only: customAlgorithm_def custom_chars_six)
qed

lemma cand_five_taken:
  "generate_candidate five_taken_env ''hash'' url n = (if n < 5 then ''taken0'' else ''free00'')"
  by (simp add: generate_candidate_def toLowerCase_def lower_char_def uppercase_letters_def
        generateHashCode_def five_taken_env_def constant_env_def is_alnum_def
        lowercase_letters_def digits_def)

text \<open>
  C8, as stated: in a bulk request every strategy gives up after 5 failed candidates.
  For \<open>hash\<close> it does not: the item calls \<^verbatim>\<open>generateShortCode\<close>, whose bound is 10.
  With the first five candidates taken and the sixth free, the item gets the sixth.
\<close>

theorem bulk_hash_tries_sixth_candidate:
  "bulk_generate five_taken_env ''hash'' no_options ''https://example.com/a'' (one_link_db ''taken0'')
     = (ShortCode ''free00'', [''taken0'', ''taken0'', ''taken0'', ''taken0'', ''taken0'', ''free00''])"
proof -
  have k: "object_keys no_options = 0"
    by (simp add: object_keys_def no_options_def)
  have f: "Url_findOne_short_url ''taken0'' (one_link_db ''taken0'') \<noteq> None"
      "Url_findOne_short_url ''free00'' (one_link_db ''taken0'') = None"
    by (simp_all add: Url_findOne_short_url_def findUrlByShortCode_def one_link_db_def
          createUrl_def new_database_def example_urlData_def map_values_def Let_def)
  have "generateShortCode five_taken_env ''hash'' ''https://example.com/a'' (one_link_db ''taken0'')
          = (Inr ''free00'', [''taken0'', ''taken0'', ''taken0'', ''taken0'', ''taken0'', ''free00''])"
    using f
    by (auto simp: generateShortCode_def generateShortCode_loop.simps maxAttempts_def cand_five_taken
          Let_def)
  then show ?thesis
    by (simp add: bulk_generate_def k)
qed

text \<open>
  C8, amended: the bound 5 holds on the branch for the algorithm \<open>custom\<close> with a
  non-empty options object: when the five candidates looked up are all taken, the item
  fails with \<^verbatim>\<open>GENERATION_FAILED\<close> after exactly five lookups. On every other input the
  item's code is the outcome of \<^verbatim>\<open>generateShortCode\<close>; when its ten candidates are all
  taken, the item fails with \<^verbatim>\<open>PROCESSING_ERROR\<close> after ten lookups.
\<close>

theorem bulk_retry_bounds:
  "(algorithm = ''custom'' \<and> object_keys options > 0
      \<and> (\<forall>n<5. Url_findOne_short_url (customAlgorithm (math_random e n) options) db \<noteq> None)
     \<longrightarrow> bulk_generate e algorithm options normalizedUrl db
           = (GENERATION_FAILED, map (\<lambda>n. customAlgorithm (math_random e n) options) [0..<5]))
   \<and> (\<not> (algorithm = ''custom'' \<and> object_keys options > 0)
      \<longrightarrow> bulk_generate e algorithm options normalizedUrl db
           = (case generateShortCode e algorithm normalizedUrl db of
                (Inl err, looked) \<Rightarrow> (PROCESSING_ERROR, looked)
              | (Inr shortCode, looked) \<Rightarrow> (ShortCode shortCode, looked)))
   \<and> (\<not> (algorithm = ''custom'' \<and> object_keys options > 0)
      \<and> (\<forall>n<10. Url_findOne_short_url (generate_candidate e algorithm normalizedUrl n) db \<noteq> None)
     \<longrightarrow> bulk_generate e algorithm options normalizedUrl db
           = (PROCESSING_ERROR, map (generate_candidate e algorithm normalizedUrl) [0..<10]))"
proof (intro conjI impI)
  assume a: "algorithm = ''custom'' \<and> object_keys options > 0
      \<and> (\<forall>n<5. Url_findOne_short_url (customAlgorithm (math_random e n) options) db \<noteq> None)"
  then have "\<forall>n. 0 \<le> n \<and> n < 5 \<longrightarrow>
             Url_findOne_short_url (customAlgorithm (math_random e n) options) db \<noteq> None"
    by simp
  from bulk_custom_loop_all_exist [OF this, of "[]"] a
  show "bulk_generate e algorithm options normalizedUrl db
           = (GENERATION_FAILED, map (\<lambda>n. customAlgorithm (math_random e n) options) [0..<5])"
    by (simp add: bulk_generate_def)
next
  assume "\<not> (algorithm = ''custom'' \<and> object_keys options > 0)"
  then show "bulk_generate e algorithm options normalizedUrl db
           = (case generateShortCode e algorithm normalizedUrl db of
                (Inl err, looked) \<Rightarrow> (PROCESSING_ERROR, looked)
              | (Inr shortCode, looked) \<Rightarrow> (ShortCode shortCode, looked))"
    unfolding bulk_generate_def by (rule if_not_P)
next
  assume b: "\<not> (algorithm = ''custom'' \<and> object_keys options > 0)
      \<and> (\<forall>n<10. Url_findOne_short_url (generate_candidate e algorithm normalizedUrl n) db \<noteq> None)"
  then have "\<forall>n. 0 \<le> n \<and> n < maxAttempts \<longrightarrow>
             Url_findOne_short_url (generate_candidate e algorithm normalizedUrl n) db \<noteq> None"
    by (simp add: maxAttempts_def)
  from generateShortCode_loop_all_exist [OF this, of "[]"]
  have g: "generateShortCode e algorithm normalizedUrl db
             = (Inl exhausted_error, map (generate_candidate e algorithm normalizedUrl) [0..<10])"
    by (simp add: generateShortCode_def maxAttempts_def)
  from b have "bulk_generate e algorithm options normalizedUrl db
           = (case generateShortCode e algorithm normalizedUrl db of
                (Inl err, looked) \<Rightarrow> (PROCESSING_ERROR, looked)
              | (Inr shortCode, looked) \<Rightarrow> (ShortCode shortCode, looked))"
    unfolding bulk_generate_def by (intro if_not_P) simp
  then show "bulk_generate e algorithm options normalizedUrl db
           = (PROCESSING_ERROR, map (generate_candidate e algorithm normalizedUrl) [0..<10])"
    by (simp add: g)
qed


theorem bulk_retry_bounds_witness:
  "bulk_generate constant_env ''custom'' six_options ''https://example.com/a'' (one_link_db ''EEEEEE'')
     = (GENERATION_FAILED, replicate 5 ''EEEEEE'')
   \<and> bulk_generate constant_env ''hash'' no_options ''https://example.com/a'' (one_link_db ''q83TzA'')
     = (PROCESSING_ERROR, replicate 10 ''q83TzA'')"
proof -
  have k: "object_keys six_options > 0" "object_keys no_options = 0"
    by (simp_all add: object_keys_def six_options_def no_options_def)
  have a: "\<forall>n<5. Url_findOne_short_url (customAlgorithm (math_random constant_env n) six_options)
             (one_link_db ''EEEEEE'') \<noteq> None"
    by (simp add: cand_six Url_findOne_short_url_def findUrlByShortCode_def one_link_db_def
          createUrl_def new_database_def example_urlData_def map_values_def Let_def)
  have b: "\<forall>n<10. Url_findOne_short_url
          (generate_candidate constant_env ''hash'' ''https://example.com/a'' n) (one_link_db ''q83TzA'') \<noteq> None"
    by (simp add: cand_hash Url_findOne_short_url_def findUrlByShortCode_def one_link_db_def
          createUrl_def new_database_def example_urlData_def map_values_def Let_def)
  have h: "generate_candidate constant_env ''hash'' ''https://example.com/a'' = (\<lambda>n. ''q83TzA'')"
    by (rule ext) (simp add: cand_hash)
  note custom = bulk_retry_bounds [of "''custom''" six_options constant_env "one_link_db ''EEEEEE''"
         "''https://example.com/a''"]
  have c: "''custom'' = ''custom'' \<and> object_keys six_options > 0
           \<and> (\<forall>n<5. Url_findOne_short_url (customAlgorithm (math_random constant_env n) six_options)
                 (one_link_db ''EEEEEE'') \<noteq> None)"
    using k(1) a by simp
  from custom c
  have "bulk_generate constant_env ''custom'' six_options ''https://example.com/a'' (one_link_db ''EEEEEE'')
     = (GENERATION_FAILED, map (\<lambda>n. customAlgorithm (math_random constant_env n) six_options) [0..<5])"
    by blast
  then have p1: "bulk_generate constant_env ''custom'' six_options ''https://example.com/a'' (one_link_db ''EEEEEE'')
     = (GENERATION_FAILED, replicate 5 ''EEEEEE'')"
    by (simp add: cand_six map_replicate_const)
  note other = bulk_retry_bounds [of "''hash''" no_options constant_env "one_link_db ''q83TzA''"
         "''https://example.com/a''"]
  have n: "\<not> (''hash'' = ''custom'' \<and> object_keys no_options > 0)
           \<and> (\<forall>n<10. Url_findOne_short_url
                 (generate_candidate constant_env ''hash'' ''https://example.com/a'' n)
                 (one_link_db ''q83TzA'') \<noteq> None)"
    using k(2) b by simp
  from other n
  have "bulk_generate constant_env ''hash'' no_options ''https://example.com/a'' (one_link_db ''q83TzA'')
     = (PROCESSING_ERROR, map (generate_candidate constant_env ''hash'' ''https://example.com/a'') [0..<10])"
    by blast
  then have p2: "bulk_generate constant_env ''hash'' no_options ''https://example.com/a'' (one_link_db ''q83TzA'')
     = (PROCESSING_ERROR, replicate 10 ''q83TzA'')"
    by (simp add: h map_replicate_const)
  from p1 p2 show ?thesis by simp
qed


end
